theory Spec2Isabelle
  imports Main "HOL-Library.Char_ord"
begin

section \<open>Values, exceptions and responses\<close>

text \<open>A thrown value: an \<^verbatim>\<open>Error\<close> object with its message.\<close>

datatype exn = Error string

text \<open>
  The handler of \<^verbatim>\<open>app/api/events/[slug]/route.ts\<close> reads fields of a raw store
  document and coerces each with \<^verbatim>\<open>String(...)\<close>. A field of such a document is
  modelled by the observations the code makes of it: whether it is a string, and what
  \<^verbatim>\<open>String\<close> does with it. \<open>JOther t\<close> stands for every other value (a number, a
  date, an identifier object, a nested object) whose string conversion is \<open>t\<close>, and
  \<open>JThrows e\<close> for a value whose conversion throws \<open>e\<close>: a nested object whose
  \<^verbatim>\<open>toString\<close> and \<^verbatim>\<open>valueOf\<close> give no primitive value, such as
  \<^verbatim>\<open>{ toString: 1 }\<close>, makes \<^verbatim>\<open>String\<close> throw a TypeError.
\<close>

datatype jsval =
  JUndefined | JNull | JBool bool | JStr string | JOther string | JThrows exn

fun js_String :: "jsval \<Rightarrow> exn + string" where
  "js_String JUndefined = Inr ''undefined''"
| "js_String JNull = Inr ''null''"
| "js_String (JBool b) = Inr (if b then ''true'' else ''false'')"
| "js_String (JStr s) = Inr s"
| "js_String (JOther t) = Inr t"
| "js_String (JThrows e) = Inl e"

text \<open>
  The object handed to \<^verbatim>\<open>NextResponse.json\<close>, with the keys in the order of the
  object literal, and the response built from it: status, body and the headers the
  handler passes.
\<close>

datatype json = JS string | JB bool | JO "(string \<times> json) list"

record response =
  status :: nat
  body :: json
  headers :: "(string \<times> string) list"

text \<open>A lean store document: its own properties; reading a missing one gives undefined.\<close>

type_synonym doc = "(string \<times> jsval) list"

definition get_prop :: "doc \<Rightarrow> string \<Rightarrow> jsval" where
  "get_prop d k = (case map_of d k of None \<Rightarrow> JUndefined | Some v \<Rightarrow> v)"

section \<open>The slug format check\<close>

text \<open>
  \<^verbatim>\<open>/^[a-z0-9-]{1,100}$/\<close>: between 1 and 100 characters, each a lowercase letter,
  a digit or a hyphen (no flag is set, so \<^verbatim>\<open>$\<close> is the end of the input).
\<close>

definition slug_char :: "char \<Rightarrow> bool" where
  "slug_char c \<longleftrightarrow>
     (CHR ''a'' \<le> c \<and> c \<le> CHR ''z'') \<or> (CHR ''0'' \<le> c \<and> c \<le> CHR ''9'') \<or> c = CHR ''-''"

definition slug_regex :: "string \<Rightarrow> bool" where
  "slug_regex s \<longleftrightarrow> 1 \<le> length s \<and> length s \<le> 100 \<and> list_all slug_char s"

fun isValidSlug :: "jsval \<Rightarrow> bool" where
  "isValidSlug (JStr s) = slug_regex s"
| "isValidSlug _ = False"

section \<open>The GET handler\<close>

text \<open>
  \<open>route_context\<close> is the second argument of \<^verbatim>\<open>GET\<close>; the type of its \<^verbatim>\<open>slug\<close> is
  \<^verbatim>\<open>string | undefined\<close>. The handler reads \<^verbatim>\<open>context?.params?.slug\<close>, which is
  undefined as well when the context or its \<^verbatim>\<open>params\<close> is missing.
\<close>

record params =
  slug :: "string option"

record route_context =
  params :: "params option"

definition context_slug :: "route_context option \<Rightarrow> string option" where
  "context_slug context =
     (case context of
        None \<Rightarrow> None
      | Some c \<Rightarrow> (case params c of None \<Rightarrow> None | Some p \<Rightarrow> slug p))"

text \<open>The context of a request whose \<^verbatim>\<open>params\<close> hold the given slug.\<close>

abbreviation request :: "string option \<Rightarrow> route_context option" where
  "request x \<equiv> Some \<lparr>params = Some \<lparr>slug = x\<rparr>\<rparr>"

text \<open>
  The handler awaits two operations: \<^verbatim>\<open>dbConnect()\<close> and the query
  \<^verbatim>\<open>Event.findOne({ slug }).lean().exec()\<close>. \<open>backend\<close> holds how each of them
  completes when it is awaited: with a value, or with a thrown exception (for
  \<^verbatim>\<open>dbConnect\<close> this is the result of the accessor modelled below). An awaited
  operation that never completes is not represented.
\<close>

record backend =
  connect :: "exn + nat"
  findOne :: "string \<Rightarrow> exn + doc option"

definition error_body :: "string \<Rightarrow> string \<Rightarrow> json" where
  "error_body c m =
     JO [(''success'', JB False), (''error'', JO [(''code'', JS c), (''message'', JS m)])]"

text \<open>
  The object literal \<^verbatim>\<open>event\<close>: the six conversions run in the order of the
  literal, and the first one that throws ends the evaluation.
\<close>

definition EventPublic :: "doc \<Rightarrow> exn + json" where
  "EventPublic d =
     (case js_String (get_prop d ''image'') of Inl e \<Rightarrow> Inl e | Inr image_text \<Rightarrow>
      case js_String (get_prop d ''title'') of Inl e \<Rightarrow> Inl e | Inr title_text \<Rightarrow>
      case js_String (get_prop d ''slug'') of Inl e \<Rightarrow> Inl e | Inr slug_text \<Rightarrow>
      case js_String (get_prop d ''location'') of Inl e \<Rightarrow> Inl e | Inr location_text \<Rightarrow>
      case js_String (get_prop d ''date'') of Inl e \<Rightarrow> Inl e | Inr date_text \<Rightarrow>
      case js_String (get_prop d ''time'') of Inl e \<Rightarrow> Inl e | Inr time_text \<Rightarrow>
        Inr (JO [(''image'', JS image_text),
                 (''title'', JS title_text),
                 (''slug'', JS slug_text),
                 (''location'', JS location_text),
                 (''date'', JS date_text),
                 (''time'', JS time_text)]))"

text \<open>The four error responses of the handler; none passes a header.\<close>

definition missing_slug :: response where
  "missing_slug =
     \<lparr>status = 400,
      body = error_body ''MISSING_SLUG'' ''Parameter 'slug' is required.'',
      headers = []\<rparr>"

definition invalid_slug :: response where
  "invalid_slug =
     \<lparr>status = 400,
      body = error_body ''INVALID_SLUG''
               ''Parameter 'slug' must be a lowercase slug (a-z, 0-9, -).'',
      headers = []\<rparr>"

definition not_found :: response where
  "not_found =
     \<lparr>status = 404, body = error_body ''NOT_FOUND'' ''Event not found.'', headers = []\<rparr>"

definition internal_server_error :: response where
  "internal_server_error =
     \<lparr>status = 500,
      body = error_body ''INTERNAL_SERVER_ERROR'' ''An unexpected error occurred.'',
      headers = []\<rparr>"

text \<open>
  The body of the \<^verbatim>\<open>try\<close> block: it returns a response or throws. The test
  \<^verbatim>\<open>!slug\<close> holds for an absent slug and for the empty string. An exception of
  the connection accessor, of the query or of a conversion leaves the block.
\<close>

definition GET_try :: "backend \<Rightarrow> route_context option \<Rightarrow> exn + response" where
  "GET_try b context =
     (case context_slug context of
        None \<Rightarrow> Inr missing_slug
      | Some s \<Rightarrow>
          if s = [] then Inr missing_slug
          else if \<not> isValidSlug (JStr s) then Inr invalid_slug
          else
            (case connect b of
               Inl e \<Rightarrow> Inl e
             | Inr c \<Rightarrow>
                 (case findOne b s of
                    Inl e \<Rightarrow> Inl e
                  | Inr None \<Rightarrow> Inr not_found
                  | Inr (Some d) \<Rightarrow>
                      (case EventPublic d of
                         Inl e \<Rightarrow> Inl e
                       | Inr event \<Rightarrow>
                           Inr \<lparr>status = 200,
                                body = JO [(''success'', JB True), (''data'', event)],
                                headers =
                                  [(''Cache-Control'',
                                    ''public, s-maxage=60, stale-while-revalidate=300'')]\<rparr>))))"

text \<open>
  The whole handler: the \<^verbatim>\<open>catch\<close> clause logs the exception with
  \<^verbatim>\<open>console.error\<close> and answers 500. The result is \<open>Inl\<close> when an exception leaves
  the handler; the second component is what was logged.
\<close>

definition GET ::
  "backend \<Rightarrow> route_context option \<Rightarrow> (exn + response) \<times> (string \<times> exn) list" where
  "GET b context =
     (case GET_try b context of
        Inr r \<Rightarrow> (Inr r, [])
      | Inl err \<Rightarrow> (Inr internal_server_error, [(''[GET] /api/events/[slug] error'', err)]))"

section \<open>The cached connection\<close>

text \<open>
  \<^verbatim>\<open>dbConnect\<close> of \<^verbatim>\<open>route.ts\<close> keeps \<^verbatim>\<open>{ conn, promise }\<close> in a process-wide
  cache. A connection handle is a number. A promise created by \<^verbatim>\<open>mongoose.connect\<close>
  lives in a heap of promises and is referred to by its index there, since the cache
  and every suspended caller share the same promise object. \<open>connect_calls\<close> records
  the connection string of each invocation of \<^verbatim>\<open>mongoose.connect\<close>.
\<close>

datatype settled = Fulfilled nat | Rejected exn

datatype promise_state = Pending | Settled settled

record MongooseCache =
  conn :: "nat option"
  promise :: "nat option"

record world =
  cache :: MongooseCache
  promises :: "promise_state list"
  connect_calls :: "string list"

text \<open>The state after module initialization: \<^verbatim>\<open>{ conn: null, promise: null }\<close>.\<close>

definition initial_world :: world where
  "initial_world =
     \<lparr>cache = \<lparr>conn = None, promise = None\<rparr>, promises = [], connect_calls = []\<rparr>"

definition config_error :: exn where
  "config_error = Error ''MONGODB_URI is not configured in environment variables''"

text \<open>
  JavaScript runs a call without interruption up to its first \<^verbatim>\<open>await\<close>.
  \<open>dbConnect_start\<close> is that part of \<^verbatim>\<open>dbConnect\<close>: it throws, returns the cached
  handle, or suspends on a promise. Its first argument is the module constant
  \<^verbatim>\<open>MONGODB_URI\<close>, read once from the environment (\<open>None\<close> when the variable is
  absent; \<^verbatim>\<open>!MONGODB_URI\<close> also holds for the empty string).
\<close>

datatype started = Threw exn | Returned nat | Awaiting nat

definition dbConnect_start :: "string option \<Rightarrow> world \<Rightarrow> started \<times> world" where
  "dbConnect_start uri w =
     (case uri of
        None \<Rightarrow> (Threw config_error, w)
      | Some u \<Rightarrow>
          if u = [] then (Threw config_error, w)
          else
            (case conn (cache w) of
               Some c \<Rightarrow> (Returned c, w)
             | None \<Rightarrow>
                 (case promise (cache w) of
                    Some p \<Rightarrow> (Awaiting p, w)
                  | None \<Rightarrow>
                      (let p = length (promises w) in
                         (Awaiting p,
                          w\<lparr>cache := (cache w)\<lparr>promise := Some p\<rparr>,
                            promises := promises w @ [Pending],
                            connect_calls := connect_calls w @ [u]\<rparr>)))))"

text \<open>
  The rest of \<^verbatim>\<open>dbConnect\<close>, run when the awaited promise has settled:
  \<^verbatim>\<open>cache.conn = await cache.promise; return cache.conn\<close>. A rejection is rethrown
  by the \<^verbatim>\<open>await\<close>; nothing else happens on that path.
\<close>

definition dbConnect_resume :: "settled \<Rightarrow> world \<Rightarrow> (exn + nat) \<times> world" where
  "dbConnect_resume r w =
     (case r of
        Fulfilled c \<Rightarrow> (Inr c, w\<lparr>cache := (cache w)\<lparr>conn := Some c\<rparr>\<rparr>)
      | Rejected e \<Rightarrow> (Inl e, w))"

text \<open>The connection attempt behind promise \<open>p\<close> completes: a pending promise settles.\<close>

definition settle :: "nat \<Rightarrow> settled \<Rightarrow> world \<Rightarrow> world" where
  "settle p r w =
     (if p < length (promises w) \<and> promises w ! p = Pending
      then w\<lparr>promises := (promises w)[p := Settled r]\<rparr>
      else w)"

text \<open>
  A caller suspended on promise \<open>p\<close> continues once \<open>p\<close> has settled; \<open>None\<close> means it
  is still waiting.
\<close>

definition dbConnect_continue :: "nat \<Rightarrow> world \<Rightarrow> ((exn + nat) \<times> world) option" where
  "dbConnect_continue p w =
     (if p < length (promises w)
      then (case promises w ! p of
              Pending \<Rightarrow> None
            | Settled r \<Rightarrow> Some (dbConnect_resume r w))
      else None)"

text \<open>
  A whole call of \<^verbatim>\<open>dbConnect\<close> that nothing interrupts: when it suspends on a
  promise that is still pending, the connection attempt behind that promise completes
  as \<open>r\<close> and the call continues. The result is \<open>None\<close> only when the cache refers to
  a promise that does not exist.
\<close>

definition dbConnect :: "string option \<Rightarrow> settled \<Rightarrow> world \<Rightarrow> ((exn + nat) \<times> world) option" where
  "dbConnect uri r w =
     (case dbConnect_start uri w of
        (Threw e, w') \<Rightarrow> Some (Inl e, w')
      | (Returned c, w') \<Rightarrow> Some (Inr c, w')
      | (Awaiting p, w') \<Rightarrow> dbConnect_continue p (settle p r w'))"

text \<open>\<open>n\<close> calls of \<^verbatim>\<open>dbConnect\<close> issued one after the other, none resumed yet.\<close>

fun dbConnect_calls :: "string option \<Rightarrow> nat \<Rightarrow> world \<Rightarrow> started list \<times> world" where
  "dbConnect_calls uri 0 w = ([], w)"
| "dbConnect_calls uri (Suc n) w =
     (case dbConnect_start uri w of
        (r, w') \<Rightarrow> (case dbConnect_calls uri n w' of (rs, w'') \<Rightarrow> (r # rs, w'')))"

text \<open>
  What can happen to the cache, in any order: a call of \<^verbatim>\<open>dbConnect\<close> runs up to
  its \<^verbatim>\<open>await\<close>, a connection attempt completes, or a caller suspended on a settled
  promise continues. \<open>run\<close> follows a sequence of such steps.
\<close>

datatype step = Call | Settle nat settled | Continue nat

fun step_world :: "string option \<Rightarrow> world \<Rightarrow> step \<Rightarrow> world" where
  "step_world uri w Call = snd (dbConnect_start uri w)"
| "step_world uri w (Settle p r) = settle p r w"
| "step_world uri w (Continue p) =
     (case dbConnect_continue p w of None \<Rightarrow> w | Some (x, w') \<Rightarrow> w')"

definition run :: "string option \<Rightarrow> step list \<Rightarrow> world \<Rightarrow> world" where
  "run uri steps w = foldl (step_world uri) w steps"

section \<open>String operations of the language\<close>

text \<open>
  Strings are lists of 8-bit characters, read as the code points U+0000 to U+00FF.
  Among these, \<^verbatim>\<open>\s\<close> and \<^verbatim>\<open>trim\<close> see the whitespace characters TAB, LF, VT,
  FF, CR, the space and the no-break space U+00A0. \<^verbatim>\<open>toLowerCase\<close> maps \<^verbatim>\<open>A\<close> to
  \<^verbatim>\<open>Z\<close> and the capital letters U+00C0 to U+00DE, except the multiplication sign
  U+00D7, onto the letter 32 code points above.
\<close>

definition js_space :: "char \<Rightarrow> bool" where
  "js_space c \<longleftrightarrow>
     c \<in> set [CHR 0x09, CHR 0x0A, CHR 0x0B, CHR 0x0C, CHR 0x0D, CHR '' '', CHR 0xA0]"

definition lower_char :: "char \<Rightarrow> char" where
  "lower_char c =
     (if (CHR ''A'' \<le> c \<and> c \<le> CHR ''Z'') \<or> (CHR 0xC0 \<le> c \<and> c \<le> CHR 0xD6) \<or>
         (CHR 0xD8 \<le> c \<and> c \<le> CHR 0xDE)
      then char_of (of_char c + (32::nat)) else c)"

definition toLowerCase :: "string \<Rightarrow> string" where
  "toLowerCase s = map lower_char s"

definition trim :: "string \<Rightarrow> string" where
  "trim s = rev (dropWhile js_space (rev (dropWhile js_space s)))"

section \<open>The Booking model\<close>

text \<open>
  \<^verbatim>\<open>database/booking.model.ts\<close> declares the schema of a Booking: the path
  \<^verbatim>\<open>eventId\<close> (an identifier, required, with an asynchronous validator that looks
  the Event up) and the path \<^verbatim>\<open>email\<close> (a string, required, lowercased and trimmed
  when set, with a format validator), and a hook that runs before a save.

  An identifier is a number. What a caller passes for \<^verbatim>\<open>eventId\<close> is absent
  (\<^verbatim>\<open>undefined\<close> or \<^verbatim>\<open>null\<close>), a value that cannot be cast to an identifier, or
  an identifier.
\<close>

datatype id_input = NoId | BadId | GoodId nat

record booking_input =
  in_eventId :: id_input
  in_email :: "string option"

record booking =
  b_id :: nat
  eventId :: nat
  email :: string
  createdAt :: nat
  updatedAt :: nat

text \<open>
  The store holds the Event documents by identifier and the Booking documents.
  \<open>unavailable = Some e\<close> is a store that cannot be reached: every operation on it
  throws \<open>e\<close>.
\<close>

record store =
  unavailable :: "exn option"
  events :: "(nat \<times> doc) list"
  bookings :: "booking list"

definition Event_findById :: "store \<Rightarrow> nat \<Rightarrow> exn + doc option" where
  "Event_findById st i =
     (case unavailable st of Some e \<Rightarrow> Inl e | None \<Rightarrow> Inr (map_of (events st) i))"

definition Booking_insert :: "booking \<Rightarrow> store \<Rightarrow> exn + store" where
  "Booking_insert b st =
     (case unavailable st of
        Some e \<Rightarrow> Inl e
      | None \<Rightarrow> Inr (st\<lparr>bookings := bookings st @ [b]\<rparr>))"

text \<open>
  The validator of \<^verbatim>\<open>eventId\<close>:
  \<^verbatim>\<open>const event = await Event.findById(value); return event !== null\<close>.
\<close>

definition eventId_validator :: "store \<Rightarrow> nat \<Rightarrow> exn + bool" where
  "eventId_validator st v =
     (case Event_findById st v of Inl e \<Rightarrow> Inl e | Inr event \<Rightarrow> Inr (event \<noteq> None))"

text \<open>
  The validator of \<^verbatim>\<open>email\<close> tests \<^verbatim>\<open>/^[^\s@]+@[^\s@]+\.[^\s@]+$/\<close>: a non-empty
  part without whitespace or \<^verbatim>\<open>@\<close>, an \<^verbatim>\<open>@\<close>, and a rest without whitespace or
  \<^verbatim>\<open>@\<close> that has a dot with at least one character on each side.
\<close>

definition email_atom :: "char \<Rightarrow> bool" where
  "email_atom c \<longleftrightarrow> \<not> js_space c \<and> c \<noteq> CHR ''@''"

definition emailRegex :: "string \<Rightarrow> bool" where
  "emailRegex s =
     (let a = takeWhile (\<lambda>c. c \<noteq> CHR ''@'') s;
          r = dropWhile (\<lambda>c. c \<noteq> CHR ''@'') s
      in a \<noteq> [] \<and> list_all email_atom a \<and> r \<noteq> [] \<and>
         list_all email_atom (tl r) \<and> CHR ''.'' \<in> set (butlast (tl (tl r))))"

text \<open>
  Validation of a document reports, for each path, a cast error or the message of
  the first validator that fails; a required string must be non-empty. A validator
  that throws fails with the message of the exception. The errors of a failed
  validation are an object keyed by path, \<^verbatim>\<open>err.errors\<close>: \<open>validation_errors\<close>
  holds its entry for each of the two paths of the schema, if any.
\<close>

datatype path_error = CastError | ValidatorError string

record validation_errors =
  eventId_error :: "path_error option"
  email_error :: "path_error option"

definition validate_eventId :: "store \<Rightarrow> id_input \<Rightarrow> path_error + nat" where
  "validate_eventId st i =
     (case i of
        NoId \<Rightarrow> Inl (ValidatorError ''Event ID is required'')
      | BadId \<Rightarrow> Inl CastError
      | GoodId v \<Rightarrow>
          (case eventId_validator st v of
             Inl (Error m) \<Rightarrow> Inl (ValidatorError m)
           | Inr ok \<Rightarrow>
               if ok then Inr v
               else Inl (ValidatorError ''Referenced event does not exist'')))"

definition validate_email :: "string option \<Rightarrow> path_error + string" where
  "validate_email e =
     (case e of
        None \<Rightarrow> Inl (ValidatorError ''Email is required'')
      | Some v \<Rightarrow>
          (let x = trim (toLowerCase v) in
           if x = [] then Inl (ValidatorError ''Email is required'')
           else if emailRegex x then Inr x
           else Inl (ValidatorError ''Please provide a valid email address'')))"

definition error_of :: "path_error + 'a \<Rightarrow> path_error option" where
  "error_of r = (case r of Inl e \<Rightarrow> Some e | Inr v \<Rightarrow> None)"

text \<open>
  The hook \<^verbatim>\<open>BookingSchema.pre('save', ...)\<close>: the error it hands to \<^verbatim>\<open>next\<close>,
  if any.
\<close>

definition pre_save :: "store \<Rightarrow> bool \<Rightarrow> bool \<Rightarrow> nat \<Rightarrow> exn option" where
  "pre_save st isModified_eventId isNew v =
     (if isModified_eventId \<or> isNew then
        (case Event_findById st v of
           Inl (Error m) \<Rightarrow> Some (Error (''Event validation failed: '' @ m))
         | Inr eventExists \<Rightarrow>
             if eventExists = None
             then Some (Error ''Cannot create booking: Event does not exist'')
             else None)
      else None)"

text \<open>
  \<^verbatim>\<open>Booking.create(input)\<close> builds a new document and saves it: the document is
  validated, then the hook runs, then the document is inserted. The first failure
  rejects the save. Nothing else writes to the store between these steps. \<open>oid\<close> is
  the fresh identifier of the document and \<open>now\<close> the time of the save.
\<close>

datatype save_error =
    ValidationError validation_errors
  | HookError exn
  | StoreError exn

definition Booking_create ::
  "nat \<Rightarrow> nat \<Rightarrow> booking_input \<Rightarrow> store \<Rightarrow> (save_error + booking) \<times> store" where
  "Booking_create oid now inp st =
     (case (validate_eventId st (in_eventId inp), validate_email (in_email inp)) of
        (Inr v, Inr e) \<Rightarrow>
          (case pre_save st True True v of
             Some err \<Rightarrow> (Inl (HookError err), st)
           | None \<Rightarrow>
               (let b = \<lparr>b_id = oid, eventId = v, email = e,
                         createdAt = now, updatedAt = now\<rparr>
                in case Booking_insert b st of
                     Inl err \<Rightarrow> (Inl (StoreError err), st)
                   | Inr st' \<Rightarrow> (Inr b, st')))
      | (r1, r2) \<Rightarrow>
          (Inl (ValidationError \<lparr>eventId_error = error_of r1, email_error = error_of r2\<rparr>),
           st))"

section \<open>Slug derivation\<close>

text \<open>
  Modelled from the spec: the Event model (\<^verbatim>\<open>database/event.model.ts\<close>), which
  derives the slug of an Event from its title at creation, is not among the sources;
  only its tests are. The spec gives the derivation as: lowercase, replace any run of
  characters outside \<^verbatim>\<open>[a-z0-9]\<close> with a single hyphen, trim leading and trailing
  hyphens. \<open>alnum\<close> is the character class \<^verbatim>\<open>[a-z0-9]\<close>.
\<close>

definition alnum :: "char \<Rightarrow> bool" where
  "alnum c \<longleftrightarrow> (CHR ''a'' \<le> c \<and> c \<le> CHR ''z'') \<or> (CHR ''0'' \<le> c \<and> c \<le> CHR ''9'')"

text \<open>
  Modelled from the spec: the second step of the derivation, which is missing with the
  Event model. Every maximal run of characters outside \<^verbatim>\<open>[a-z0-9]\<close> becomes one hyphen.
\<close>

function replace_runs :: "string \<Rightarrow> string" where
  "replace_runs [] = []"
| "replace_runs (c # cs) =
     (if alnum c then c # replace_runs cs
      else CHR ''-'' # replace_runs (dropWhile (\<lambda>d. \<not> alnum d) cs))"
  by pat_completeness auto
termination
  by (relation "measure length") (auto simp: le_imp_less_Suc length_dropWhile_le)

text \<open>
  Modelled from the spec: the third step of the derivation, which is missing with the
  Event model. \<open>strip_trailing\<close> removes the hyphens at the end of a string and
  \<open>strip_hyphens\<close> those at both ends.
\<close>

fun strip_trailing :: "string \<Rightarrow> string" where
  "strip_trailing [] = []"
| "strip_trailing (c # cs) =
     (let r = strip_trailing cs in if r = [] \<and> c = CHR ''-'' then [] else c # r)"

definition strip_hyphens :: "string \<Rightarrow> string" where
  "strip_hyphens s = strip_trailing (dropWhile (\<lambda>c. c = CHR ''-'') s)"

text \<open>
  Modelled from the spec: the slug that the missing Event model stores for a title,
  the three steps in the order the spec gives them.
\<close>

definition slugify :: "string \<Rightarrow> string" where
  "slugify t = strip_hyphens (replace_runs (toLowerCase t))"

section \<open>Predicates of the statements\<close>

text \<open>
  The maximal non-empty runs of characters of \<^verbatim>\<open>[a-z0-9]\<close> in a string, in their
  order, and the strings of a list joined with one hyphen between neighbours.
\<close>

function alnum_runs :: "string \<Rightarrow> string list" where
  "alnum_runs s =
     (let r = dropWhile (\<lambda>c. \<not> alnum c) s in
      if r = [] then [] else takeWhile alnum r # alnum_runs (dropWhile alnum r))"
  by pat_completeness auto
termination
proof (relation "measure length")
  show "wf (measure length)" by simp
next
  fix s :: string and r :: string
  assume r: "r = dropWhile (\<lambda>c. \<not> alnum c) s" and ne: "r \<noteq> []"
  then have "alnum (hd r)"
    using hd_dropWhile [of "\<lambda>c. \<not> alnum c" s] by simp
  with ne have "length (dropWhile alnum r) < length r"
    by (cases r) (simp_all add: le_imp_less_Suc length_dropWhile_le)
  also have "length r \<le> length s"
    unfolding r by (rule length_dropWhile_le)
  finally show "(dropWhile alnum r, s) \<in> measure length" by simp
qed

declare alnum_runs.simps [simp del]

fun join_hyphen :: "string list \<Rightarrow> string" where
  "join_hyphen [] = []"
| "join_hyphen [w] = w"
| "join_hyphen (w # v # ws) = w @ CHR ''-'' # join_hyphen (v # ws)"

text \<open>
  The exception that makes the handler fail after the slug checks, if any: the one
  thrown by the connection accessor or, when that returns, by the query.
\<close>

definition internal_failure :: "backend \<Rightarrow> string \<Rightarrow> exn option" where
  "internal_failure b s =
     (case connect b of
        Inl e \<Rightarrow> Some e
      | Inr c \<Rightarrow> (case findOne b s of Inl e \<Rightarrow> Some e | Inr d \<Rightarrow> None))"

text \<open>
  The two shapes of a response body: \<^verbatim>\<open>{ success: true, data }\<close> and
  \<^verbatim>\<open>{ success: false, error: { code, message } }\<close>.
\<close>

definition is_envelope :: "json \<Rightarrow> bool" where
  "is_envelope j =
     (case j of
        JO [(k1, JB ok), (k2, v)] \<Rightarrow>
          k1 = ''success'' \<and>
          (if ok then k2 = ''data''
           else k2 = ''error'' \<and>
             (case v of
                JO [(c, JS x), (m, JS y)] \<Rightarrow> c = ''code'' \<and> m = ''message''
              | _ \<Rightarrow> False))
      | _ \<Rightarrow> False)"

text \<open>
  The number of invocations of \<^verbatim>\<open>mongoose.connect\<close> agrees with the cache: none
  while the cache holds no promise, one once it holds a promise.
\<close>

definition attempts_inv :: "world \<Rightarrow> bool" where
  "attempts_inv w \<longleftrightarrow>
     (if promise (cache w) = None then connect_calls w = [] else length (connect_calls w) = 1)"

text \<open>The input names an Event that the store holds.\<close>

definition refers_to_event :: "store \<Rightarrow> id_input \<Rightarrow> bool" where
  "refers_to_event st i =
     (case i of GoodId v \<Rightarrow> map_of (events st) v \<noteq> None | _ \<Rightarrow> False)"

text \<open>
  A string of characters of \<^verbatim>\<open>[a-z0-9-]\<close> in which no two hyphens are adjacent.
\<close>

fun tidy :: "string \<Rightarrow> bool" where
  "tidy [] = True"
| "tidy [c] = (alnum c \<or> c = CHR ''-'')"
| "tidy (c # d # cs) = ((alnum c \<or> (c = CHR ''-'' \<and> alnum d)) \<and> tidy (d # cs))"

section \<open>Properties of the handler\<close>

lemma slug_regex_nonempty: "slug_regex s \<Longrightarrow> s \<noteq> []"
  by (auto simp: slug_regex_def)

text \<open>An absent slug is answered with 400 and the code \<^verbatim>\<open>MISSING_SLUG\<close>.\<close>

lemma GET_absent_slug:
  "context_slug context = None \<Longrightarrow> GET b context = (Inr missing_slug, [])"
  by (simp add: GET_def GET_try_def)

text \<open>
  A non-empty slug that fails the format check is answered with 400 and the code
  \<^verbatim>\<open>INVALID_SLUG\<close>.
\<close>

lemma GET_malformed_slug:
  "s \<noteq> [] \<Longrightarrow> \<not> slug_regex s \<Longrightarrow>
   GET b (request (Some s)) = (Inr invalid_slug, [])"
  by (simp add: GET_def GET_try_def context_slug_def)

text \<open>
  A well-formed slug for which the connection succeeds and the query finds no Event
  is answered with 404 and the code \<^verbatim>\<open>NOT_FOUND\<close>.
\<close>

lemma GET_unknown_slug:
  "slug_regex s \<Longrightarrow> connect b = Inr c \<Longrightarrow> findOne b s = Inr None \<Longrightarrow>
   GET b (request (Some s)) = (Inr not_found, [])"
  by (simp add: GET_def GET_try_def context_slug_def slug_regex_nonempty)

text \<open>
  Claim C2, at the empty slug. The empty string is present and does not match
  \<^verbatim>\<open>^[a-z0-9-]{1,100}$\<close>, so the ordered rules ask for \<^verbatim>\<open>INVALID_SLUG\<close>. The
  handler tests \<^verbatim>\<open>!slug\<close> first, which holds for the empty string, and answers 400
  with \<^verbatim>\<open>MISSING_SLUG\<close>, whatever the backend does.
\<close>

theorem GET_empty_slug:
  "\<not> slug_regex '''' \<and>
   GET b (request (Some '''')) =
     (Inr \<lparr>status = 400,
           body = JO [(''success'', JB False),
                      (''error'', JO [(''code'', JS ''MISSING_SLUG''),
                                      (''message'', JS ''Parameter 'slug' is required.'')])],
           headers = []\<rparr>, [])"
  by (simp add: GET_def GET_try_def context_slug_def slug_regex_def missing_slug_def error_body_def)

text \<open>
  When one of the six conversions throws, the handler answers 500 and logs the
  exception.
\<close>

lemma GET_conversion_throws:
  "slug_regex s \<Longrightarrow> connect b = Inr c \<Longrightarrow> findOne b s = Inr (Some d) \<Longrightarrow>
   EventPublic d = Inl e \<Longrightarrow>
   GET b (request (Some s)) =
     (Inr internal_server_error, [(''[GET] /api/events/[slug] error'', e)])"
  by (simp add: GET_def GET_try_def context_slug_def slug_regex_nonempty)

text \<open>
  Claim C3 does not hold for every document. A document whose \<^verbatim>\<open>image\<close> is a nested
  object that \<^verbatim>\<open>String\<close> cannot convert is returned for a well-formed slug over a
  working connection, and the handler answers 500, not 200.
\<close>

theorem GET_found_counterexample:
  "slug_regex ''react-summit-2025'' \<and>
   GET \<lparr>connect = Inr 1,
        findOne = (\<lambda>s. Inr (Some [(''_id'', JOther ''65f0c0ffee''),
                                   (''title'', JStr ''React Summit 2025''),
                                   (''slug'', JStr s),
                                   (''image'',
                                    JThrows (Error ''Cannot convert object to primitive value'')),
                                   (''location'', JStr ''Amsterdam''),
                                   (''date'', JStr ''2025-11-07''),
                                   (''time'', JStr ''09:00'')]))\<rparr>
       (request (Some ''react-summit-2025'')) =
    (Inr \<lparr>status = 500,
          body = JO [(''success'', JB False),
                     (''error'', JO [(''code'', JS ''INTERNAL_SERVER_ERROR''),
                                     (''message'', JS ''An unexpected error occurred.'')])],
          headers = []\<rparr>,
     [(''[GET] /api/events/[slug] error'',
       Error ''Cannot convert object to primitive value'')])"
  by (simp add: GET_def GET_try_def context_slug_def slug_regex_def slug_char_def
        EventPublic_def get_prop_def internal_server_error_def error_body_def)

text \<open>
  Claim C3, amended. For a well-formed slug, when the connection succeeds, the query
  returns a document and \<^verbatim>\<open>String\<close> converts each of its fields image, title, slug,
  location, date and time without throwing, the handler answers 200; the data object
  of the body has exactly these six keys, in this order, each with the text of the
  conversion, and the response carries the header
  \<^verbatim>\<open>Cache-Control: public, s-maxage=60, stale-while-revalidate=300\<close>. No other
  field of the document is in the body, and nothing is logged. The conversion leaves
  a string as it is and turns a missing field into \<^verbatim>\<open>undefined\<close>, null into
  \<^verbatim>\<open>null\<close>, a boolean into \<^verbatim>\<open>true\<close> or \<^verbatim>\<open>false\<close>, and any other convertible
  value into its text.
\<close>

theorem GET_found:
  assumes "slug_regex s" and "connect b = Inr c" and "findOne b s = Inr (Some d)"
    and "js_String (get_prop d ''image'') = Inr image_text"
    and "js_String (get_prop d ''title'') = Inr title_text"
    and "js_String (get_prop d ''slug'') = Inr slug_text"
    and "js_String (get_prop d ''location'') = Inr location_text"
    and "js_String (get_prop d ''date'') = Inr date_text"
    and "js_String (get_prop d ''time'') = Inr time_text"
  shows "GET b (request (Some s)) =
    (Inr \<lparr>status = 200,
          body =
            JO [(''success'', JB True),
                (''data'',
                 JO [(''image'', JS image_text),
                     (''title'', JS title_text),
                     (''slug'', JS slug_text),
                     (''location'', JS location_text),
                     (''date'', JS date_text),
                     (''time'', JS time_text)])],
          headers =
            [(''Cache-Control'', ''public, s-maxage=60, stale-while-revalidate=300'')]\<rparr>,
     []) \<and>
    js_String (JStr x) = Inr x \<and>
    js_String JUndefined = Inr ''undefined'' \<and>
    js_String JNull = Inr ''null'' \<and>
    js_String (JBool True) = Inr ''true'' \<and>
    js_String (JBool False) = Inr ''false'' \<and>
    js_String (JOther y) = Inr y"
  using assms
  by (simp add: GET_def GET_try_def context_slug_def slug_regex_nonempty EventPublic_def)

theorem GET_found_witness:
  "slug_regex ''react-summit-2025'' \<and>
   GET \<lparr>connect = Inr 1,
        findOne = (\<lambda>s. Inr (Some [(''_id'', JOther ''65f0c0ffee''),
                                   (''title'', JStr ''React Summit 2025''),
                                   (''slug'', JStr s),
                                   (''description'', JStr ''React conference''),
                                   (''image'', JNull),
                                   (''location'', JBool False),
                                   (''date'', JOther ''Fri Nov 07 2025''),
                                   (''__v'', JOther ''0'')]))\<rparr>
       (request (Some ''react-summit-2025'')) =
    (Inr \<lparr>status = 200,
          body =
            JO [(''success'', JB True),
                (''data'',
                 JO [(''image'', JS ''null''),
                     (''title'', JS ''React Summit 2025''),
                     (''slug'', JS ''react-summit-2025''),
                     (''location'', JS ''false''),
                     (''date'', JS ''Fri Nov 07 2025''),
                     (''time'', JS ''undefined'')])],
          headers =
            [(''Cache-Control'', ''public, s-maxage=60, stale-while-revalidate=300'')]\<rparr>,
     [])"
proof -
  let ?d = "[(''_id'', JOther ''65f0c0ffee''),
             (''title'', JStr ''React Summit 2025''),
             (''slug'', JStr ''react-summit-2025''),
             (''description'', JStr ''React conference''),
             (''image'', JNull),
             (''location'', JBool False),
             (''date'', JOther ''Fri Nov 07 2025''),
             (''__v'', JOther ''0'')]"
  let ?b = "\<lparr>connect = Inr 1,
             findOne = (\<lambda>s. Inr (Some [(''_id'', JOther ''65f0c0ffee''),
                                        (''title'', JStr ''React Summit 2025''),
                                        (''slug'', JStr s),
                                        (''description'', JStr ''React conference''),
                                        (''image'', JNull),
                                        (''location'', JBool False),
                                        (''date'', JOther ''Fri Nov 07 2025''),
                                        (''__v'', JOther ''0'')]))\<rparr>"
  have h: "slug_regex ''react-summit-2025''"
    by (simp add: slug_regex_def slug_char_def)
  have c: "connect ?b = Inr 1" by simp
  have f: "findOne ?b ''react-summit-2025'' = Inr (Some ?d)" by simp
  have g: "js_String (get_prop ?d ''image'') = Inr ''null''"
    "js_String (get_prop ?d ''title'') = Inr ''React Summit 2025''"
    "js_String (get_prop ?d ''slug'') = Inr ''react-summit-2025''"
    "js_String (get_prop ?d ''location'') = Inr ''false''"
    "js_String (get_prop ?d ''date'') = Inr ''Fri Nov 07 2025''"
    "js_String (get_prop ?d ''time'') = Inr ''undefined''"
    by (simp_all add: get_prop_def)
  from GET_found [OF h c f g] h show ?thesis by blast
qed

text \<open>
  Claim C8. For a well-formed slug, when the connection accessor or the query throws,
  the handler answers 500 with the code \<^verbatim>\<open>INTERNAL_SERVER_ERROR\<close> and a body that
  does not depend on the exception; the exception goes to the log only. Two runs
  that differ only in the exception thrown give the same response.
\<close>

theorem GET_internal_error:
  assumes "slug_regex s"
    and "internal_failure b1 s = Some e1"
    and "internal_failure b2 s = Some e2"
  shows "GET b1 (request (Some s)) =
           (Inr \<lparr>status = 500,
                 body = JO [(''success'', JB False),
                            (''error'', JO [(''code'', JS ''INTERNAL_SERVER_ERROR''),
                                            (''message'', JS ''An unexpected error occurred.'')])],
                 headers = []\<rparr>,
            [(''[GET] /api/events/[slug] error'', e1)]) \<and>
         fst (GET b1 (request (Some s))) = fst (GET b2 (request (Some s)))"
  using assms
  by (auto simp: GET_def GET_try_def context_slug_def slug_regex_nonempty internal_failure_def
        internal_server_error_def error_body_def split: sum.splits)

theorem GET_internal_error_witness:
  "slug_regex ''valid-slug'' \<and>
   internal_failure \<lparr>connect = Inl (Error ''Database error''), findOne = (\<lambda>s. Inr None)\<rparr>
     ''valid-slug'' = Some (Error ''Database error'') \<and>
   internal_failure \<lparr>connect = Inr 1, findOne = (\<lambda>s. Inl (Error ''cursor lost at 10.0.0.7''))\<rparr>
     ''valid-slug'' = Some (Error ''cursor lost at 10.0.0.7'') \<and>
   GET \<lparr>connect = Inl (Error ''Database error''), findOne = (\<lambda>s. Inr None)\<rparr>
       (request (Some ''valid-slug'')) =
     (Inr \<lparr>status = 500,
           body = JO [(''success'', JB False),
                      (''error'', JO [(''code'', JS ''INTERNAL_SERVER_ERROR''),
                                      (''message'', JS ''An unexpected error occurred.'')])],
           headers = []\<rparr>,
      [(''[GET] /api/events/[slug] error'', Error ''Database error'')]) \<and>
   fst (GET \<lparr>connect = Inl (Error ''Database error''), findOne = (\<lambda>s. Inr None)\<rparr>
          (request (Some ''valid-slug''))) =
   fst (GET \<lparr>connect = Inr 1, findOne = (\<lambda>s. Inl (Error ''cursor lost at 10.0.0.7''))\<rparr>
          (request (Some ''valid-slug'')))"
proof -
  have h: "slug_regex ''valid-slug''"
    by (simp add: slug_regex_def slug_char_def)
  have f1: "internal_failure \<lparr>connect = Inl (Error ''Database error''), findOne = (\<lambda>s. Inr None)\<rparr>
     ''valid-slug'' = Some (Error ''Database error'')"
    by (simp add: internal_failure_def)
  have f2: "internal_failure \<lparr>connect = Inr 1, findOne = (\<lambda>s. Inl (Error ''cursor lost at 10.0.0.7''))\<rparr>
     ''valid-slug'' = Some (Error ''cursor lost at 10.0.0.7'')"
    by (simp add: internal_failure_def)
  show ?thesis
    using h f1 f2 GET_internal_error [OF h f1 f2] by blast
qed

text \<open>
  Claim C10. Whatever the request and however the connection accessor and the query
  complete, no exception leaves the handler: it returns a response whose status is
  200, 400, 404 or 500 and whose body is \<^verbatim>\<open>{ success: true, data }\<close> or
  \<^verbatim>\<open>{ success: false, error: { code, message } }\<close>.
\<close>

theorem GET_total:
  "\<exists>r. fst (GET b context) = Inr r \<and> status r \<in> {200, 400, 404, 500} \<and> is_envelope (body r)"
  by (auto simp: GET_def GET_try_def context_slug_def is_envelope_def error_body_def missing_slug_def
        invalid_slug_def not_found_def internal_server_error_def
        split: sum.splits option.splits)

theorem GET_total_witness:
  "\<exists>r. fst (GET \<lparr>connect = Inl (Error ''boom''), findOne = (\<lambda>s. Inr None)\<rparr>
              (request (Some ''abc''))) = Inr r \<and>
       status r \<in> {200, 400, 404, 500} \<and> is_envelope (body r)"
  using GET_total [of "\<lparr>connect = Inl (Error ''boom''), findOne = (\<lambda>s. Inr None)\<rparr>"
      "(request (Some ''abc''))"]
  by simp

section \<open>Properties of the connection accessor\<close>

text \<open>
  Claim C9. When the connection string is absent, every call of \<^verbatim>\<open>dbConnect\<close>,
  in whatever state the cache is and whatever the database would answer, throws the
  configuration error and leaves the state as it was; so do any number of calls in a
  row, and \<^verbatim>\<open>mongoose.connect\<close> is never invoked.
\<close>

theorem dbConnect_unconfigured:
  "dbConnect None r w = Some (Inl config_error, w) \<and>
   dbConnect_calls None n w = (replicate n (Threw config_error), w) \<and>
   connect_calls (snd (dbConnect_calls None n w)) = connect_calls w"
  by (induction n) (simp_all add: dbConnect_def dbConnect_start_def)

theorem dbConnect_unconfigured_witness:
  "dbConnect None (Fulfilled 1) initial_world =
     Some (Inl (Error ''MONGODB_URI is not configured in environment variables''),
           initial_world) \<and>
   dbConnect_calls None 3 initial_world =
     ([Threw config_error, Threw config_error, Threw config_error], initial_world) \<and>
   connect_calls (snd (dbConnect_calls None 3 initial_world)) = []"
  using dbConnect_unconfigured [of "Fulfilled 1" initial_world 3]
  by (simp add: initial_world_def config_error_def numeral_3_eq_3)

text \<open>
  With a connection string, the first call from the initial cache invokes
  \<^verbatim>\<open>mongoose.connect\<close> once; when the attempt succeeds the call returns the handle and
  caches it.
\<close>

lemma dbConnect_first_call:
  "u \<noteq> [] \<Longrightarrow>
   dbConnect (Some u) (Fulfilled c) initial_world =
     Some (Inr c,
           \<lparr>cache = \<lparr>conn = Some c, promise = Some 0\<rparr>,
            promises = [Settled (Fulfilled c)], connect_calls = [u]\<rparr>)"
  by (simp add: dbConnect_def dbConnect_start_def initial_world_def settle_def
        dbConnect_continue_def dbConnect_resume_def)

text \<open>With a cached handle a call returns it and changes nothing.\<close>

lemma dbConnect_start_cached:
  "u \<noteq> [] \<Longrightarrow> conn (cache w) = Some c \<Longrightarrow> dbConnect_start (Some u) w = (Returned c, w)"
  by (simp add: dbConnect_start_def)

text \<open>With an attempt in the cache and no handle a call awaits that attempt.\<close>

lemma dbConnect_start_inflight:
  "u \<noteq> [] \<Longrightarrow> conn (cache w) = None \<Longrightarrow> promise (cache w) = Some p \<Longrightarrow>
   dbConnect_start (Some u) w = (Awaiting p, w)"
  by (simp add: dbConnect_start_def)

lemma dbConnect_calls_inflight:
  "u \<noteq> [] \<Longrightarrow> conn (cache w) = None \<Longrightarrow> promise (cache w) = Some p \<Longrightarrow>
   dbConnect_calls (Some u) n w = (replicate n (Awaiting p), w)"
  by (induction n) (simp_all add: dbConnect_start_inflight)

text \<open>
  From an empty cache, one call or more issued before anything settles: the first
  invokes \<^verbatim>\<open>mongoose.connect\<close>, all of them await the promise it returned.
\<close>

lemma dbConnect_calls_fresh:
  assumes "u \<noteq> []" and "conn (cache w) = None" and "promise (cache w) = None"
  shows "dbConnect_calls (Some u) (Suc n) w =
           (replicate (Suc n) (Awaiting (length (promises w))),
            w\<lparr>cache := (cache w)\<lparr>promise := Some (length (promises w))\<rparr>,
              promises := promises w @ [Pending],
              connect_calls := connect_calls w @ [u]\<rparr>)"
proof -
  define p where "p = length (promises w)"
  define w1 where "w1 = w\<lparr>cache := (cache w)\<lparr>promise := Some p\<rparr>,
                          promises := promises w @ [Pending],
                          connect_calls := connect_calls w @ [u]\<rparr>"
  have s: "dbConnect_start (Some u) w = (Awaiting p, w1)"
    using assms by (simp add: dbConnect_start_def p_def w1_def Let_def)
  have c: "conn (cache w1) = None" "promise (cache w1) = Some p"
    using assms by (simp_all add: w1_def)
  have "dbConnect_calls (Some u) n w1 = (replicate n (Awaiting p), w1)"
    using dbConnect_calls_inflight [OF assms(1) c] .
  with s have "dbConnect_calls (Some u) (Suc n) w = (replicate (Suc n) (Awaiting p), w1)"
    by simp
  then show ?thesis by (simp add: p_def w1_def)
qed

text \<open>
  Claim C4. With a connection string configured: a call that finds a cached handle
  returns it and starts nothing; a call that finds an attempt in flight awaits that
  same attempt and starts nothing; and any number of calls (at least one) issued from
  the initial cache before the first attempt settles all await the one promise, with
  exactly one invocation of \<^verbatim>\<open>mongoose.connect\<close>.
\<close>

theorem dbConnect_single_attempt:
  assumes "u \<noteq> []"
  shows "(conn (cache w) = Some c \<longrightarrow> dbConnect_start (Some u) w = (Returned c, w)) \<and>
         (conn (cache w) = None \<and> promise (cache w) = Some p \<longrightarrow>
            dbConnect_start (Some u) w = (Awaiting p, w)) \<and>
         dbConnect_calls (Some u) (Suc n) initial_world =
           (replicate (Suc n) (Awaiting 0),
            \<lparr>cache = \<lparr>conn = None, promise = Some 0\<rparr>,
             promises = [Pending], connect_calls = [u]\<rparr>)"
proof (intro conjI impI)
  assume "conn (cache w) = Some c"
  with assms show "dbConnect_start (Some u) w = (Returned c, w)"
    by (rule dbConnect_start_cached)
next
  assume "conn (cache w) = None \<and> promise (cache w) = Some p"
  with assms show "dbConnect_start (Some u) w = (Awaiting p, w)"
    by (simp add: dbConnect_start_inflight)
next
  have "conn (cache initial_world) = None" "promise (cache initial_world) = None"
    by (simp_all add: initial_world_def)
  from dbConnect_calls_fresh [OF assms this, of n]
  show "dbConnect_calls (Some u) (Suc n) initial_world =
           (replicate (Suc n) (Awaiting 0),
            \<lparr>cache = \<lparr>conn = None, promise = Some 0\<rparr>,
             promises = [Pending], connect_calls = [u]\<rparr>)"
    by (simp add: initial_world_def)
qed

theorem dbConnect_single_attempt_witness:
  "''mongodb://localhost:27017/test-db'' \<noteq> [] \<and>
   dbConnect_start (Some ''mongodb://localhost:27017/test-db'')
     \<lparr>cache = \<lparr>conn = Some 7, promise = Some 0\<rparr>,
      promises = [Settled (Fulfilled 7)],
      connect_calls = [''mongodb://localhost:27017/test-db'']\<rparr> =
     (Returned 7,
      \<lparr>cache = \<lparr>conn = Some 7, promise = Some 0\<rparr>,
       promises = [Settled (Fulfilled 7)],
       connect_calls = [''mongodb://localhost:27017/test-db'']\<rparr>) \<and>
   dbConnect_start (Some ''mongodb://localhost:27017/test-db'')
     \<lparr>cache = \<lparr>conn = None, promise = Some 0\<rparr>,
      promises = [Pending],
      connect_calls = [''mongodb://localhost:27017/test-db'']\<rparr> =
     (Awaiting 0,
      \<lparr>cache = \<lparr>conn = None, promise = Some 0\<rparr>,
       promises = [Pending],
       connect_calls = [''mongodb://localhost:27017/test-db'']\<rparr>) \<and>
   dbConnect_calls (Some ''mongodb://localhost:27017/test-db'') 3 initial_world =
     ([Awaiting 0, Awaiting 0, Awaiting 0],
      \<lparr>cache = \<lparr>conn = None, promise = Some 0\<rparr>,
       promises = [Pending],
       connect_calls = [''mongodb://localhost:27017/test-db'']\<rparr>)"
proof -
  have h: "''mongodb://localhost:27017/test-db'' \<noteq> []" by simp
  show ?thesis
    using h
      dbConnect_single_attempt [OF h, of
        "\<lparr>cache = \<lparr>conn = Some 7, promise = Some 0\<rparr>,
          promises = [Settled (Fulfilled 7)],
          connect_calls = [''mongodb://localhost:27017/test-db'']\<rparr>" 7 0 2]
      dbConnect_single_attempt [OF h, of
        "\<lparr>cache = \<lparr>conn = None, promise = Some 0\<rparr>,
          promises = [Pending],
          connect_calls = [''mongodb://localhost:27017/test-db'']\<rparr>" 7 0 2]
    by (simp add: numeral_3_eq_3)
qed

text \<open>
  Along every sequence of calls, completions and continuations from the initial
  cache, \<^verbatim>\<open>mongoose.connect\<close> is invoked at most once.
\<close>

lemma attempts_inv_step: "attempts_inv w \<Longrightarrow> attempts_inv (step_world uri w s)"
proof (cases s)
  case Call
  assume "attempts_inv w"
  then show ?thesis using Call
    by (auto simp: attempts_inv_def dbConnect_start_def Let_def split: option.splits if_splits)
next
  case (Settle p r)
  assume "attempts_inv w"
  then show ?thesis using Settle by (simp add: attempts_inv_def settle_def)
next
  case (Continue p)
  assume "attempts_inv w"
  then show ?thesis using Continue
    by (auto simp: attempts_inv_def dbConnect_continue_def dbConnect_resume_def
        split: option.splits promise_state.splits settled.splits if_splits)
qed

lemma attempts_inv_run: "attempts_inv w \<Longrightarrow> attempts_inv (run uri steps w)"
  unfolding run_def by (induction steps arbitrary: w) (simp_all add: attempts_inv_step)

lemma connect_at_most_once: "length (connect_calls (run uri steps initial_world)) \<le> 1"
proof -
  have "attempts_inv initial_world"
    by (simp add: attempts_inv_def initial_world_def)
  then have "attempts_inv (run uri steps initial_world)"
    by (rule attempts_inv_run)
  then show ?thesis
    by (auto simp: attempts_inv_def split: if_splits)
qed

text \<open>A rejection reaches every caller suspended on the attempt.\<close>

lemma dbConnect_continue_rejected:
  "p < length (promises w) \<Longrightarrow> promises w ! p = Pending \<Longrightarrow>
   dbConnect_continue p (settle p (Rejected e) w) = Some (Inl e, settle p (Rejected e) w)"
  by (simp add: dbConnect_continue_def settle_def dbConnect_resume_def)

text \<open>
  Once the cache holds a rejected promise, every call fails with the error of that
  promise and changes nothing, whatever the database would now answer.
\<close>

lemma dbConnect_rejected_forever:
  assumes "u \<noteq> []" and "conn (cache w) = None" and "promise (cache w) = Some p"
    and "p < length (promises w)" and "promises w ! p = Settled (Rejected e)"
  shows "dbConnect (Some u) r w = Some (Inl e, w)"
  using assms
  by (simp add: dbConnect_def dbConnect_start_def settle_def dbConnect_continue_def
        dbConnect_resume_def)

text \<open>
  Claim C1, at a failed attempt. The first call starts an attempt, the attempt is
  rejected with \<open>e\<close>, and the suspended caller receives \<open>e\<close>. The cache still holds
  the rejected promise afterwards: the next call starts nothing, awaits that same
  promise and receives \<open>e\<close> again, even when the database would now accept a
  connection, and \<^verbatim>\<open>mongoose.connect\<close> has been invoked once in all. The accessor
  does not clear the attempt, and no later call starts a fresh one.
\<close>

theorem dbConnect_failed_attempt_kept:
  "(let u = Some ''mongodb://localhost:27017/test-db'';
        e = Error ''Transient error'';
        w1 = snd (dbConnect_start u initial_world);
        w2 = settle 0 (Rejected e) w1
    in fst (dbConnect_start u initial_world) = Awaiting 0 \<and>
       dbConnect_continue 0 w2 = Some (Inl e, w2) \<and>
       promise (cache w2) = Some 0 \<and>
       dbConnect_start u w2 = (Awaiting 0, w2) \<and>
       dbConnect u (Fulfilled 1) w2 = Some (Inl e, w2) \<and>
       connect_calls w2 = [''mongodb://localhost:27017/test-db''])"
  by (simp add: Let_def dbConnect_def dbConnect_start_def initial_world_def settle_def
        dbConnect_continue_def dbConnect_resume_def)

section \<open>Properties of the Booking model\<close>

text \<open>
  When the input does not name an Event of the store, validation of \<^verbatim>\<open>eventId\<close>
  fails: the value is absent, cannot be cast, or the validator finds no Event (or
  cannot reach the store).
\<close>

lemma validate_eventId_dangling:
  "\<not> refers_to_event st i \<Longrightarrow> \<exists>e. validate_eventId st i = Inl e"
  by (cases i)
    (auto simp: refers_to_event_def validate_eventId_def eventId_validator_def
       Event_findById_def split: option.splits exn.splits)

text \<open>
  For an identifier of no Event in a reachable store, the validator and the hook
  reach the same verdict.
\<close>

lemma validator_and_hook_agree:
  assumes "unavailable st = None" and "map_of (events st) v = None"
  shows "validate_eventId st (GoodId v) =
           Inl (ValidatorError ''Referenced event does not exist'')"
    and "pre_save st m True v = Some (Error ''Cannot create booking: Event does not exist'')"
  using assms
  by (simp_all add: validate_eventId_def eventId_validator_def Event_findById_def pre_save_def)

text \<open>
  Claim C7. A creation whose \<^verbatim>\<open>eventId\<close> does not refer to an Event held by the
  store fails with a validation error that has an entry for the path \<^verbatim>\<open>eventId\<close>
  (its entry for the path \<^verbatim>\<open>email\<close> is the outcome of validating the address),
  and the store, with its Bookings, is as before. When the input is an identifier and
  the store is reachable, the entry for \<^verbatim>\<open>eventId\<close> carries the message
  \<^verbatim>\<open>Referenced event does not exist\<close>.
\<close>

theorem Booking_create_dangling:
  assumes "\<not> refers_to_event st (in_eventId inp)"
  shows "\<exists>e. Booking_create oid now inp st =
               (Inl (ValidationError
                      \<lparr>eventId_error = Some e,
                       email_error = error_of (validate_email (in_email inp))\<rparr>), st) \<and>
             (unavailable st = None \<and> in_eventId inp \<noteq> NoId \<and> in_eventId inp \<noteq> BadId \<longrightarrow>
                e = ValidatorError ''Referenced event does not exist'')"
proof -
  from assms obtain e where e: "validate_eventId st (in_eventId inp) = Inl e"
    using validate_eventId_dangling by blast
  have c: "Booking_create oid now inp st =
             (Inl (ValidationError
                    \<lparr>eventId_error = Some e,
                     email_error = error_of (validate_email (in_email inp))\<rparr>), st)"
    using e by (simp add: Booking_create_def error_of_def)
  have m: "unavailable st = None \<and> in_eventId inp \<noteq> NoId \<and> in_eventId inp \<noteq> BadId \<longrightarrow>
             e = ValidatorError ''Referenced event does not exist''"
  proof
    assume a: "unavailable st = None \<and> in_eventId inp \<noteq> NoId \<and> in_eventId inp \<noteq> BadId"
    then obtain v where v: "in_eventId inp = GoodId v"
      by (cases "in_eventId inp") auto
    with assms have "map_of (events st) v = None"
      by (simp add: refers_to_event_def)
    with a e v show "e = ValidatorError ''Referenced event does not exist''"
      by (simp add: validator_and_hook_agree(1))
  qed
  from c m show ?thesis by (intro exI [of _ e] conjI)
qed

theorem Booking_create_dangling_witness:
  "\<not> refers_to_event \<lparr>unavailable = None, events = [(1, [(''title'', JStr ''Test Event'')])],
                        bookings = []\<rparr> (GoodId 2) \<and>
   Booking_create 100 5 \<lparr>in_eventId = GoodId 2, in_email = Some ''test@example.com''\<rparr>
     \<lparr>unavailable = None, events = [(1, [(''title'', JStr ''Test Event'')])], bookings = []\<rparr> =
   (Inl (ValidationError
          \<lparr>eventId_error = Some (ValidatorError ''Referenced event does not exist''),
           email_error = None\<rparr>),
    \<lparr>unavailable = None, events = [(1, [(''title'', JStr ''Test Event'')])], bookings = []\<rparr>)"
proof -
  let ?st = "\<lparr>unavailable = None, events = [(1::nat, [(''title'', JStr ''Test Event'')])],
              bookings = []\<rparr>"
  let ?inp = "\<lparr>in_eventId = GoodId 2, in_email = Some ''test@example.com''\<rparr>"
  have h: "\<not> refers_to_event ?st (in_eventId ?inp)"
    by (simp add: refers_to_event_def)
  have v: "error_of (validate_email (in_email ?inp)) = None"
    by code_simp
  from Booking_create_dangling [OF h, of 100 5] h show ?thesis
    unfolding v by auto
qed

text \<open>
  When both paths fail, the validation error has an entry for each: here an address
  that is only whitespace, the no-break space included, with an identifier of no Event.
\<close>

lemma Booking_create_both_fail:
  "Booking_create 100 5 \<lparr>in_eventId = GoodId 2, in_email = Some [CHR '' '', CHR 0xA0]\<rparr>
     \<lparr>unavailable = None, events = [(1, [])], bookings = []\<rparr> =
   (Inl (ValidationError
          \<lparr>eventId_error = Some (ValidatorError ''Referenced event does not exist''),
           email_error = Some (ValidatorError ''Email is required'')\<rparr>),
    \<lparr>unavailable = None, events = [(1, [])], bookings = []\<rparr>)"
  by code_simp

text \<open>A creation that names an Event of a reachable store, with a valid address, is stored.\<close>

lemma Booking_create_stored:
  "Booking_create 100 5 \<lparr>in_eventId = GoodId 1, in_email = Some ''  Test@Example.COM ''\<rparr>
     \<lparr>unavailable = None, events = [(1, [])], bookings = []\<rparr> =
   (Inr \<lparr>b_id = 100, eventId = 1, email = ''test@example.com'', createdAt = 5, updatedAt = 5\<rparr>,
    \<lparr>unavailable = None, events = [(1, [])],
     bookings = [\<lparr>b_id = 100, eventId = 1, email = ''test@example.com'',
                  createdAt = 5, updatedAt = 5\<rparr>]\<rparr>)"
  by code_simp

section \<open>Properties of the slug derivation\<close>

text \<open>The titles of the tests of the Event model and the slugs the tests expect.\<close>

lemma slugify_tests:
  "slugify ''Test Conference 2025'' = ''test-conference-2025''"
  "slugify ''React Summit 2025'' = ''react-summit-2025''"
  "slugify ''UPPERCASE TITLE'' = ''uppercase-title''"
  "slugify ''Multi Word Title'' = ''multi-word-title''"
  "slugify ''---Event---'' = ''event''"
  "slugify ''Multiple   Spaces   Event'' = ''multiple-spaces-event''"
  "slugify ''  Trimmed Title  '' = ''trimmed-title''"
  by code_simp+

lemma slugify_scenario: "slugify ''Event: 2025 @ #Tech!'' = ''event-2025-tech''"
  by code_simp

lemma hyphen_not_alnum: "\<not> alnum CHR ''-''"
  by (simp add: alnum_def)

lemma lower_char_alnum: "alnum c \<Longrightarrow> lower_char c = c"
  by (auto simp: alnum_def lower_char_def less_eq_char_def)

lemma lower_char_hyphen: "lower_char CHR ''-'' = CHR ''-''"
  by (simp add: lower_char_def)

lemma tidy_Cons_alnum: "alnum c \<Longrightarrow> tidy ys \<Longrightarrow> tidy (c # ys)"
  by (cases ys) simp_all

lemma tidy_tl: "tidy (c # cs) \<Longrightarrow> tidy cs"
  by (cases cs) simp_all

lemma tidy_chars: "tidy s \<Longrightarrow> c \<in> set s \<Longrightarrow> alnum c \<or> c = CHR ''-''"
  by (induction s rule: tidy.induct) auto

text \<open>The second step yields a tidy string, and leaves a tidy string as it is.\<close>

lemma tidy_replace_runs: "tidy (replace_runs s)"
proof (induction s rule: replace_runs.induct)
  case 1
  show ?case by simp
next
  case (2 c cs)
  show ?case
  proof (cases "alnum c")
    case True
    with 2 show ?thesis by (simp add: tidy_Cons_alnum)
  next
    case False
    let ?r = "dropWhile (\<lambda>d. \<not> alnum d) cs"
    from False 2 have ih: "tidy (replace_runs ?r)" by simp
    from False have eq: "replace_runs (c # cs) = CHR ''-'' # replace_runs ?r" by simp
    show ?thesis
    proof (cases ?r)
      case Nil
      then have "replace_runs ?r = []" by (simp only: replace_runs.simps)
      then show ?thesis unfolding eq by simp
    next
      case (Cons x xs)
      then have "alnum x" using hd_dropWhile [of "\<lambda>d. \<not> alnum d" cs] by simp
      with ih Cons show ?thesis unfolding eq by simp
    qed
  qed
qed

lemma replace_runs_tidy: "tidy s \<Longrightarrow> replace_runs s = s"
  by (induction s rule: tidy.induct) (auto simp: hyphen_not_alnum)

text \<open>The third step keeps a string tidy, and doing it twice is doing it once.\<close>

lemma tidy_dropWhile: "tidy s \<Longrightarrow> tidy (dropWhile P s)"
  by (induction s) (auto dest: tidy_tl)

lemma strip_trailing_hd: "strip_trailing s = [] \<or> (s \<noteq> [] \<and> hd (strip_trailing s) = hd s)"
  by (cases s) (simp_all add: Let_def)

lemma tidy_strip_trailing: "tidy s \<Longrightarrow> tidy (strip_trailing s)"
proof (induction s)
  case Nil
  show ?case by simp
next
  case (Cons c cs)
  then have t: "tidy (strip_trailing cs)" by (auto dest: tidy_tl)
  show ?case
  proof (cases "strip_trailing cs")
    case Nil
    with Cons.prems show ?thesis by (cases cs) (auto simp: Let_def)
  next
    case (Cons x xs)
    then have "cs \<noteq> []" "hd cs = x" using strip_trailing_hd [of cs] by auto
    then obtain ys where "cs = x # ys" by (cases cs) auto
    with Cons.prems t Cons show ?thesis by (simp add: Let_def)
  qed
qed

lemma strip_trailing_idem: "strip_trailing (strip_trailing s) = strip_trailing s"
  by (induction s) (simp_all add: Let_def)

lemma strip_hyphens_idem: "strip_hyphens (strip_hyphens s) = strip_hyphens s"
proof -
  let ?t = "dropWhile (\<lambda>c. c = CHR ''-'') s"
  have "strip_trailing ?t = [] \<or> (?t \<noteq> [] \<and> hd (strip_trailing ?t) = hd ?t)"
    by (rule strip_trailing_hd)
  then have "dropWhile (\<lambda>c. c = CHR ''-'') (strip_trailing ?t) = strip_trailing ?t"
  proof
    assume "strip_trailing ?t = []"
    then show ?thesis by simp
  next
    assume a: "?t \<noteq> [] \<and> hd (strip_trailing ?t) = hd ?t"
    then have "hd ?t \<noteq> CHR ''-''" using hd_dropWhile [of "\<lambda>c. c = CHR ''-''" s] by simp
    with a show ?thesis by (cases "strip_trailing ?t") auto
  qed
  then show ?thesis by (simp add: strip_hyphens_def strip_trailing_idem)
qed

lemma tidy_slugify: "tidy (slugify t)"
  by (simp add: slugify_def strip_hyphens_def tidy_strip_trailing tidy_dropWhile
        tidy_replace_runs)

lemma toLowerCase_tidy: "tidy s \<Longrightarrow> toLowerCase s = s"
  unfolding toLowerCase_def
  by (rule map_idI) (auto dest: tidy_chars simp: lower_char_alnum lower_char_hyphen)

text \<open>The second step copies a leading run of \<^verbatim>\<open>[a-z0-9]\<close> and turns what follows.\<close>

lemma replace_runs_append: "list_all alnum w \<Longrightarrow> replace_runs (w @ s) = w @ replace_runs s"
  by (induction w) simp_all

lemma replace_runs_split:
  "replace_runs s = takeWhile alnum s @ replace_runs (dropWhile alnum s)"
proof -
  have "list_all alnum (takeWhile alnum s)"
    by (simp add: list_all_iff) (meson set_takeWhileD)
  from replace_runs_append [OF this, of "dropWhile alnum s"] show ?thesis by simp
qed

lemma replace_runs_outside:
  "s \<noteq> [] \<Longrightarrow> \<not> alnum (hd s) \<Longrightarrow>
   replace_runs s = CHR ''-'' # replace_runs (dropWhile (\<lambda>c. \<not> alnum c) s)"
  by (cases s) simp_all

lemma replace_runs_leading:
  "dropWhile (\<lambda>c. c = CHR ''-'') (replace_runs s) =
   replace_runs (dropWhile (\<lambda>c. \<not> alnum c) s)"
proof (cases s)
  case Nil
  then show ?thesis by simp
next
  case (Cons c cs)
  show ?thesis
  proof (cases "alnum c")
    case True
    then have "c \<noteq> CHR ''-''" using hyphen_not_alnum by auto
    with True Cons show ?thesis by simp
  next
    case False
    let ?r = "dropWhile (\<lambda>c. \<not> alnum c) cs"
    have "dropWhile (\<lambda>c. c = CHR ''-'') (replace_runs ?r) = replace_runs ?r"
    proof (cases ?r)
      case Nil
      then have "replace_runs ?r = []" by (simp only: replace_runs.simps)
      then show ?thesis by simp
    next
      case (Cons x xs)
      then have a: "alnum x" using hd_dropWhile [of "\<lambda>d. \<not> alnum d" cs] by simp
      then have "x \<noteq> CHR ''-''" using hyphen_not_alnum by auto
      with a have "dropWhile (\<lambda>c. c = CHR ''-'') (replace_runs (x # xs)) = replace_runs (x # xs)"
        by simp
      with Cons show ?thesis by (simp only:)
    qed
    with False Cons show ?thesis by simp
  qed
qed

text \<open>The third step on a string with a given ending.\<close>

lemma strip_trailing_append_empty:
  "strip_trailing b = [] \<Longrightarrow> strip_trailing (a @ b) = strip_trailing a"
  by (induction a) (simp_all add: Let_def)

lemma strip_trailing_append:
  "strip_trailing b \<noteq> [] \<Longrightarrow> strip_trailing (a @ b) = a @ strip_trailing b"
  by (induction a) (simp_all add: Let_def)

lemma strip_trailing_alnum: "list_all alnum w \<Longrightarrow> strip_trailing w = w"
  by (induction w) (auto simp: Let_def hyphen_not_alnum)

text \<open>Every run is non-empty, so a joined list of runs is empty only for no run.\<close>

lemma alnum_runs_Nil: "alnum_runs [] = []"
  by (simp add: alnum_runs.simps [of "[]"])

lemma alnum_runs_nonempty: "[] \<notin> set (alnum_runs s)"
proof (induction s rule: alnum_runs.induct)
  case (1 s)
  let ?r = "dropWhile (\<lambda>c. \<not> alnum c) s"
  show ?case
  proof (cases "?r = []")
    case True
    then show ?thesis by (simp add: alnum_runs.simps [of s])
  next
    case False
    then have "alnum (hd ?r)" using hd_dropWhile [of "\<lambda>c. \<not> alnum c" s] by simp
    with False have "takeWhile alnum ?r \<noteq> []" by (cases ?r) simp_all
    moreover from False have "[] \<notin> set (alnum_runs (dropWhile alnum ?r))"
      by (rule "1.IH" [OF refl])
    ultimately show ?thesis using False by (simp add: alnum_runs.simps [of s] Let_def)
  qed
qed

lemma join_hyphen_empty: "[] \<notin> set ws \<Longrightarrow> join_hyphen ws = [] \<Longrightarrow> ws = []"
  by (induction ws rule: join_hyphen.induct) auto

lemma join_hyphen_Cons:
  "ws \<noteq> [] \<Longrightarrow> join_hyphen (w # ws) = w @ CHR ''-'' # join_hyphen ws"
  by (cases ws) simp_all

text \<open>
  The second and third steps together yield the runs of \<^verbatim>\<open>[a-z0-9]\<close> joined by
  hyphens.
\<close>

lemma strip_replace_runs:
  "strip_trailing (replace_runs (dropWhile (\<lambda>c. \<not> alnum c) s)) = join_hyphen (alnum_runs s)"
proof (induction s rule: alnum_runs.induct)
  case (1 s)
  let ?r = "dropWhile (\<lambda>c. \<not> alnum c) s"
  show ?case
  proof (cases "?r = []")
    case True
    then have "replace_runs ?r = []" by (simp only: replace_runs.simps)
    moreover from True have "alnum_runs s = []" by (simp add: alnum_runs.simps [of s])
    ultimately show ?thesis by (simp only: strip_trailing.simps join_hyphen.simps)
  next
    case False
    let ?w = "takeWhile alnum ?r"
    let ?t = "dropWhile alnum ?r"
    let ?x = "replace_runs (dropWhile (\<lambda>c. \<not> alnum c) ?t)"
    have runs: "alnum_runs s = ?w # alnum_runs ?t"
      using False by (simp add: alnum_runs.simps [of s] Let_def)
    have ih: "strip_trailing ?x = join_hyphen (alnum_runs ?t)"
      using False by (rule "1.IH" [OF refl])
    have w: "list_all alnum ?w"
      by (simp add: list_all_iff) (meson set_takeWhileD)
    have split: "replace_runs ?r = ?w @ replace_runs ?t"
      by (rule replace_runs_split)
    show ?thesis
    proof (cases "?t = []")
      case True
      then have "replace_runs ?t = []" "alnum_runs ?t = []"
        by (simp_all only: replace_runs.simps alnum_runs_Nil)
      with split runs w show ?thesis by (simp add: strip_trailing_alnum)
    next
      case False
      then have "\<not> alnum (hd ?t)" using hd_dropWhile [of alnum ?r] by simp
      with False have t: "replace_runs ?t = CHR ''-'' # ?x"
        by (rule replace_runs_outside)
      show ?thesis
      proof (cases "alnum_runs ?t = []")
        case True
        with ih have "strip_trailing ?x = []" by simp
        then have "strip_trailing (CHR ''-'' # ?x) = []" by (simp add: Let_def)
        then have "strip_trailing (?w @ CHR ''-'' # ?x) = strip_trailing ?w"
          by (rule strip_trailing_append_empty)
        with split t runs True w show ?thesis by (simp add: strip_trailing_alnum)
      next
        case False
        with ih alnum_runs_nonempty [of ?t] have ne: "strip_trailing ?x \<noteq> []"
          using join_hyphen_empty by fastforce
        then have "strip_trailing (CHR ''-'' # ?x) = CHR ''-'' # strip_trailing ?x"
          by (simp add: Let_def)
        with ne have "strip_trailing (?w @ CHR ''-'' # ?x) = ?w @ CHR ''-'' # strip_trailing ?x"
          using strip_trailing_append [of "CHR ''-'' # ?x" ?w] by simp
        with split t runs False ih show ?thesis by (simp add: join_hyphen_Cons)
      qed
    qed
  qed
qed

text \<open>
  Claim C5. The slug of a title is the title lowercased, with every maximal run of
  characters outside \<^verbatim>\<open>[a-z0-9]\<close> replaced by one hyphen and the hyphens at both
  ends removed: for every title, it consists of the maximal runs of characters of
  \<^verbatim>\<open>[a-z0-9]\<close> of the lowercased title, in their order, with exactly one hyphen
  between two neighbours and none at either end. The title
  \<^verbatim>\<open>Event: 2025 @ #Tech!\<close> gives \<^verbatim>\<open>event-2025-tech\<close>.
\<close>

theorem slugify_derivation:
  "slugify t = join_hyphen (alnum_runs (toLowerCase t)) \<and>
   slugify ''Event: 2025 @ #Tech!'' = ''event-2025-tech''"
proof
  show "slugify t = join_hyphen (alnum_runs (toLowerCase t))"
    by (simp add: slugify_def strip_hyphens_def replace_runs_leading strip_replace_runs)
  show "slugify ''Event: 2025 @ #Tech!'' = ''event-2025-tech''"
    by (rule slugify_scenario)
qed

theorem slugify_derivation_witness:
  "slugify ''Multiple   Spaces   Event'' = ''multiple-spaces-event'' \<and>
   slugify ''Event: 2025 @ #Tech!'' = ''event-2025-tech''"
proof -
  have "join_hyphen (alnum_runs (toLowerCase ''Multiple   Spaces   Event'')) =
          ''multiple-spaces-event''"
    by code_simp
  with slugify_derivation [of "''Multiple   Spaces   Event''"] show ?thesis
    by (simp only:)
qed

text \<open>
  Claim C6. The slug derivation is idempotent: the slug of a slug is that slug, for
  every title.
\<close>

theorem slugify_idempotent: "slugify (slugify t) = slugify t"
proof -
  have t: "tidy (slugify t)" by (rule tidy_slugify)
  have "slugify (slugify t) = strip_hyphens (slugify t)"
    by (simp add: slugify_def [of "slugify t"] toLowerCase_tidy [OF t] replace_runs_tidy [OF t])
  also have "\<dots> = slugify t"
    by (simp add: slugify_def strip_hyphens_idem)
  finally show ?thesis .
qed

theorem slugify_idempotent_witness:
  "slugify ''event-2025-tech'' = ''event-2025-tech''"
  using slugify_idempotent [of "''Event: 2025 @ #Tech!''"]
  by (simp only: slugify_scenario)

end
